theory Spec2Isabelle
  imports Main "HOL-Library.Sublist"
begin

section \<open>The KPI aggregation processor (backend/business/kpis/processor.py)\<close>

text \<open>
  The processor keeps, for every tracked KPI, one value per daily, weekly, monthly and
  yearly bucket. It is driven by clock ticks (\<open>process_tick\<close>), recomputes the
  bucket of the period that just closed and prunes buckets that left the retention
  window (\<open>compute_kpi_values_for_aggregation_kind\<close>), and catches up after a
  restart (\<open>restore_from_db\<close>).

  Python exceptions are values of \<open>error\<close>; a method that may raise returns
  \<open>error + 'a\<close> together with the state it had reached when it raised.
\<close>

datatype error = AttributeError | ValueError | OverflowError

subsection \<open>Python's datetime, as far as the processor uses it\<close>

text \<open>
  The processor only builds naive datetimes at midnight, adds whole days to them and
  reads their timestamp, so a datetime is its calendar date. The arithmetic follows
  the standard library: the constructor checks its fields and raises ValueError, the
  proleptic Gregorian ordinal counts days from 0001-01-01 (ordinal 1), and adding days
  outside 0001-01-01 .. 9999-12-31 raises OverflowError.
\<close>

record datetime =
  dt_year :: int
  dt_month :: int
  dt_day :: int

definition is_leap :: "int \<Rightarrow> bool" where
  "is_leap y = (y mod 4 = 0 \<and> (y mod 100 \<noteq> 0 \<or> y mod 400 = 0))"

definition days_in_month :: "int \<Rightarrow> int \<Rightarrow> int" where
  "days_in_month y m =
     (if m = 2 then (if is_leap y then 29 else 28)
      else if m = 4 \<or> m = 6 \<or> m = 9 \<or> m = 11 then 30 else 31)"

definition days_before_year :: "int \<Rightarrow> int" where
  "days_before_year y =
     (let y1 = y - 1 in y1 * 365 + y1 div 4 - y1 div 100 + y1 div 400)"

definition days_before_month_table :: "int \<Rightarrow> int" where
  "days_before_month_table m =
     (if m = 1 then 0 else if m = 2 then 31 else if m = 3 then 59
      else if m = 4 then 90 else if m = 5 then 120 else if m = 6 then 151
      else if m = 7 then 181 else if m = 8 then 212 else if m = 9 then 243
      else if m = 10 then 273 else if m = 11 then 304 else 334)"

definition days_before_month :: "int \<Rightarrow> int \<Rightarrow> int" where
  "days_before_month y m =
     days_before_month_table m + (if m > 2 \<and> is_leap y then 1 else 0)"

definition ymd2ord :: "int \<Rightarrow> int \<Rightarrow> int \<Rightarrow> int" where
  "ymd2ord y m d = days_before_year y + days_before_month y m + d"

definition ord2ymd :: "int \<Rightarrow> datetime" where
  "ord2ymd n0 =
     (let n = n0 - 1;
          n400 = n div 146097; n = n mod 146097;
          n100 = n div 36524; n = n mod 36524;
          n4 = n div 1461; n = n mod 1461;
          n1 = n div 365; n = n mod 365;
          y = n400 * 400 + 1 + n100 * 100 + n4 * 4 + n1
      in if n1 = 4 \<or> n100 = 4
         then \<lparr>dt_year = y - 1, dt_month = 12, dt_day = 31\<rparr>
         else
           let leapyear = (n1 = 3 \<and> (n4 \<noteq> 24 \<or> n100 = 3));
               m = (n + 50) div 32;
               preceding = days_before_month_table m + (if m > 2 \<and> leapyear then 1 else 0)
           in if preceding > n
              then let m' = m - 1;
                       dim = (if m' = 2 then (if leapyear then 29 else 28)
                              else if m' = 4 \<or> m' = 6 \<or> m' = 9 \<or> m' = 11 then 30 else 31)
                   in \<lparr>dt_year = y, dt_month = m', dt_day = n - (preceding - dim) + 1\<rparr>
              else \<lparr>dt_year = y, dt_month = m, dt_day = n - preceding + 1\<rparr>)"

definition toordinal :: "datetime \<Rightarrow> int" where
  "toordinal dt = ymd2ord (dt_year dt) (dt_month dt) (dt_day dt)"

text \<open>\<open>datetime(year=y, month=m, day=d)\<close>\<close>

definition datetime_new :: "int \<Rightarrow> int \<Rightarrow> int \<Rightarrow> error + datetime" where
  "datetime_new y m d =
     (if y < 1 \<or> 9999 < y then Inl ValueError
      else if m < 1 \<or> 12 < m then Inl ValueError
      else if d < 1 \<or> days_in_month y m < d then Inl ValueError
      else Inr \<lparr>dt_year = y, dt_month = m, dt_day = d\<rparr>)"

text \<open>\<open>dt + timedelta(days=n)\<close>\<close>

definition add_days :: "datetime \<Rightarrow> int \<Rightarrow> error + datetime" where
  "add_days dt n =
     (let ordinal = toordinal dt + n
      in if 0 < ordinal \<and> ordinal \<le> 3652059 then Inr (ord2ymd ordinal)
         else Inl OverflowError)"

subsection \<open>The collaborators of the processor\<close>

text \<open>\<open>relativedelta(days=n)\<close>, \<open>relativedelta(weeks=n)\<close>, \<open>relativedelta(months=n)\<close>\<close>

datatype relativedelta = Days int | Weeks int | Months int

text \<open>
  The class Period (backend/business/period.py) is not among the sources. Its
  interface, as the processor uses it, is a parameter of every definition below:
  periods are values of a type \<open>'p\<close> compared with equality, and the record holds
  the methods and properties the processor calls, together with
  \<open>int(dt.timestamp())\<close>, which depends on the time zone of the host.
\<close>

record 'p env =
  get_truncated_value :: "'p \<Rightarrow> string \<Rightarrow> string"
  get_shifted :: "'p \<Rightarrow> relativedelta \<Rightarrow> 'p"
  year :: "'p \<Rightarrow> int"
  month :: "'p \<Rightarrow> int"
  day :: "'p \<Rightarrow> int"
  weekday :: "'p \<Rightarrow> int"
  timestamp :: "datetime \<Rightarrow> int"

text \<open>
  A Kpi (backend/business/kpis/kpi.py, not among the sources) has a unique id and
  computes its value for an aggregation kind and a time window from the raw records,
  which the processor never changes: \<open>get_value\<close> is a function of its arguments.
\<close>

record 'v kpi =
  unique_id :: int
  get_value :: "string \<Rightarrow> int \<Rightarrow> int \<Rightarrow> 'v"

text \<open>\<open>Value(agg_value=..., kpi_value=...)\<close> (backend/business/kpis/value.py)\<close>

record 'v Value =
  agg_value :: string
  kpi_value :: 'v

record Timestamps =
  start :: int
  stop :: int

subsection \<open>The persister\<close>

text \<open>
  Modelled from the spec: the Persister (backend/db/persister.py) and the database
  session are not among the sources. The spec gives the interface: \<open>get_values(kpi_id,
  granularity)\<close> lists the persisted values, \<open>add_value\<close>, \<open>update_value\<close> and
  \<open>delete_value(kpi_id, granularity, label)\<close> are keyed by (kpi_id, granularity,
  label), and \<open>get_last_current_period\<close> reads the marker of the last processed
  period, if any. The table is a list of rows, so that duplicate rows can be told
  apart from a single one.

  The session also carries a journal: every call of the persister and every entry into
  \<open>compute_kpi_values_for_aggregation_kind\<close> appends one event to it. The journal is an
  observation of the run and never read by the code.
\<close>

record 'v kpi_value_row =
  row_kpi_id :: int
  row_agg_kind :: string
  row_agg_value :: string
  row_kpi_value :: 'v

datatype ('p, 'v) event =
    Compute 'p int string
  | GetKpiValues int string
  | DeleteKpiValue int string string
  | UpdateKpiValue int string string 'v
  | AddKpiValue int string string 'v
  | GetLastCurrentPeriod

record ('p, 'v) session =
  kpi_values :: "'v kpi_value_row list"
  last_current_period :: "'p option"
  journal :: "('p, 'v) event list"

definition record_event :: "('p, 'v) event \<Rightarrow> ('p, 'v) session \<Rightarrow> ('p, 'v) session" where
  "record_event ev s = s\<lparr>journal := journal s @ [ev]\<rparr>"

definition has_key :: "int \<Rightarrow> string \<Rightarrow> 'v kpi_value_row \<Rightarrow> bool" where
  "has_key kpi_id agg_kind r = (row_kpi_id r = kpi_id \<and> row_agg_kind r = agg_kind)"

definition get_kpi_values ::
  "int \<Rightarrow> string \<Rightarrow> ('p, 'v) session \<Rightarrow> 'v Value list \<times> ('p, 'v) session" where
  "get_kpi_values kpi_id agg_kind s =
     (map (\<lambda>r. \<lparr>agg_value = row_agg_value r, kpi_value = row_kpi_value r\<rparr>)
        (filter (has_key kpi_id agg_kind) (kpi_values s)),
      record_event (GetKpiValues kpi_id agg_kind) s)"

definition delete_kpi_value ::
  "int \<Rightarrow> string \<Rightarrow> string \<Rightarrow> ('p, 'v) session \<Rightarrow> ('p, 'v) session" where
  "delete_kpi_value kpi_id agg_kind label s =
     record_event (DeleteKpiValue kpi_id agg_kind label)
       (s\<lparr>kpi_values :=
            filter (\<lambda>r. \<not> (has_key kpi_id agg_kind r \<and> row_agg_value r = label))
              (kpi_values s)\<rparr>)"

definition update_kpi_value ::
  "int \<Rightarrow> string \<Rightarrow> string \<Rightarrow> 'v \<Rightarrow> ('p, 'v) session \<Rightarrow> ('p, 'v) session" where
  "update_kpi_value kpi_id agg_kind label v s =
     record_event (UpdateKpiValue kpi_id agg_kind label v)
       (s\<lparr>kpi_values :=
            map (\<lambda>r. if has_key kpi_id agg_kind r \<and> row_agg_value r = label
                      then r\<lparr>row_kpi_value := v\<rparr> else r)
              (kpi_values s)\<rparr>)"

definition add_kpi_value ::
  "int \<Rightarrow> string \<Rightarrow> string \<Rightarrow> 'v \<Rightarrow> ('p, 'v) session \<Rightarrow> ('p, 'v) session" where
  "add_kpi_value kpi_id agg_kind label v s =
     record_event (AddKpiValue kpi_id agg_kind label v)
       (s\<lparr>kpi_values := kpi_values s @
            [\<lparr>row_kpi_id = kpi_id, row_agg_kind = agg_kind,
              row_agg_value = label, row_kpi_value = v\<rparr>]\<rparr>)"

definition get_last_current_period ::
  "('p, 'v) session \<Rightarrow> 'p option \<times> ('p, 'v) session" where
  "get_last_current_period s = (last_current_period s, record_event GetLastCurrentPeriod s)"

subsection \<open>The processor\<close>

record ('p, 'v) processor =
  kpis :: "'v kpi list"
  current_period :: 'p
  current_day :: string

text \<open>\<open>Processor.__init__\<close>\<close>

definition Processor :: "'p env \<Rightarrow> 'p \<Rightarrow> ('p, 'v) processor" where
  "Processor E now =
     \<lparr>kpis = [], current_period = now, current_day = get_truncated_value E now ''D''\<rparr>"

text \<open>\<open>Processor.get_aggregations_to_keep\<close>: \<open>None\<close> means that all values are kept.\<close>

definition get_aggregations_to_keep ::
  "'p env \<Rightarrow> string \<Rightarrow> 'p \<Rightarrow> error + string list option" where
  "get_aggregations_to_keep E agg_kind now =
     (if agg_kind = ''D'' then
        Inr (Some (map (\<lambda>delta. get_truncated_value E
                               (get_shifted E now (Days (- int delta))) agg_kind)
                     [0..<7]))
      else if agg_kind = ''W'' then
        Inr (Some (map (\<lambda>delta. get_truncated_value E
                               (get_shifted E now (Weeks (- int delta))) agg_kind)
                     [0..<4]))
      else if agg_kind = ''M'' then
        Inr (Some (map (\<lambda>delta. get_truncated_value E
                               (get_shifted E now (Months (- int delta))) agg_kind)
                     [0..<12]))
      else if agg_kind = ''Y'' then Inr None
      else Inl AttributeError)"

text \<open>\<open>Processor.get_timestamps\<close>\<close>

definition get_timestamps :: "'p env \<Rightarrow> string \<Rightarrow> 'p \<Rightarrow> error + Timestamps" where
  "get_timestamps E agg_kind now =
     (if agg_kind = ''D'' then
        (case datetime_new (year E now) (month E now) (day E now) of
           Inl e \<Rightarrow> Inl e
         | Inr start_dt \<Rightarrow>
             (case add_days start_dt 1 of
                Inl e \<Rightarrow> Inl e
              | Inr stop_dt \<Rightarrow>
                  Inr \<lparr>start = timestamp E start_dt, stop = timestamp E stop_dt\<rparr>))
      else if agg_kind = ''W'' then
        (case datetime_new (year E now) (month E now) (day E now) of
           Inl e \<Rightarrow> Inl e
         | Inr day_dt \<Rightarrow>
             (case add_days day_dt (1 - weekday E now) of
                Inl e \<Rightarrow> Inl e
              | Inr start_dt \<Rightarrow>
                  (case add_days start_dt 7 of
                     Inl e \<Rightarrow> Inl e
                   | Inr stop_dt \<Rightarrow>
                       Inr \<lparr>start = timestamp E start_dt, stop = timestamp E stop_dt\<rparr>)))
      else if agg_kind = ''M'' then
        (case datetime_new (year E now) (month E now) 1 of
           Inl e \<Rightarrow> Inl e
         | Inr start_dt \<Rightarrow>
             (case datetime_new (year E now) (month E now + 1) 1 of
                Inl e \<Rightarrow> Inl e
              | Inr stop_dt \<Rightarrow>
                  Inr \<lparr>start = timestamp E start_dt, stop = timestamp E stop_dt\<rparr>))
      else if agg_kind = ''Y'' then
        (case datetime_new (year E now) 1 1 of
           Inl e \<Rightarrow> Inl e
         | Inr start_dt \<Rightarrow>
             (case datetime_new (year E now + 1) 1 1 of
                Inl e \<Rightarrow> Inl e
              | Inr stop_dt \<Rightarrow>
                  Inr \<lparr>start = timestamp E start_dt, stop = timestamp E stop_dt\<rparr>))
      else Inl AttributeError)"

text \<open>
  The test \<open>aggregations_to_keep and value.agg_value not in aggregations_to_keep\<close>:
  a keep list that is \<open>None\<close> or empty is falsy.
\<close>

definition is_pruned :: "string list option \<Rightarrow> string \<Rightarrow> bool" where
  "is_pruned aggregations_to_keep label =
     (case aggregations_to_keep of
        None \<Rightarrow> False
      | Some keep \<Rightarrow> keep \<noteq> [] \<and> label \<notin> set keep)"

text \<open>
  The scan of \<open>compute_kpi_values_for_aggregation_kind\<close> over the values read at
  its start: a value whose label is not kept is deleted, a value with the current
  label is recomputed and updated. The flag \<open>value_updated\<close> is threaded through and returned.
\<close>

fun scan_values ::
  "'v kpi \<Rightarrow> string \<Rightarrow> string \<Rightarrow> string list option \<Rightarrow> Timestamps \<Rightarrow>
   'v Value list \<Rightarrow> bool \<Rightarrow> ('p, 'v) session \<Rightarrow> bool \<times> ('p, 'v) session" where
  "scan_values kpi agg_kind current_agg_value aggregations_to_keep timestamps
     [] value_updated s = (value_updated, s)"
| "scan_values kpi agg_kind current_agg_value aggregations_to_keep timestamps
     (v # vs) value_updated s =
     (let s1 = (if is_pruned aggregations_to_keep (agg_value v)
                then delete_kpi_value (unique_id kpi) agg_kind (agg_value v) s
                else s)
      in if agg_value v = current_agg_value
         then scan_values kpi agg_kind current_agg_value aggregations_to_keep timestamps
                vs True
                (update_kpi_value (unique_id kpi) agg_kind (agg_value v)
                   (get_value kpi agg_kind (start timestamps) (stop timestamps)) s1)
         else scan_values kpi agg_kind current_agg_value aggregations_to_keep timestamps
                vs value_updated s1)"

text \<open>\<open>Processor.compute_kpi_values_for_aggregation_kind\<close>\<close>

definition compute_kpi_values_for_aggregation_kind ::
  "'p env \<Rightarrow> 'p \<Rightarrow> 'v kpi \<Rightarrow> string \<Rightarrow> ('p, 'v) session \<Rightarrow>
   (error + unit) \<times> ('p, 'v) session" where
  "compute_kpi_values_for_aggregation_kind E now kpi agg_kind s =
     (let (vals, s1) = get_kpi_values (unique_id kpi) agg_kind
                         (record_event (Compute now (unique_id kpi) agg_kind) s);
          current_agg_value = get_truncated_value E now agg_kind
      in case get_aggregations_to_keep E agg_kind now of
           Inl e \<Rightarrow> (Inl e, s1)
         | Inr aggregations_to_keep \<Rightarrow>
             (case get_timestamps E agg_kind now of
                Inl e \<Rightarrow> (Inl e, s1)
              | Inr timestamps \<Rightarrow>
                  (let (value_updated, s2) =
                         scan_values kpi agg_kind current_agg_value aggregations_to_keep
                           timestamps vals False s1
                   in if \<not> value_updated
                      then (Inr (),
                            add_kpi_value (unique_id kpi) agg_kind current_agg_value
                              (get_value kpi agg_kind (start timestamps) (stop timestamps))
                              s2)
                      else (Inr (), s2))))"

text \<open>
  The loops of \<open>process_tick\<close> and \<open>restore_from_db\<close>: for one KPI over a list of
  aggregation kinds, and over the KPIs. An exception ends the loops where it is raised.
\<close>

fun loop_agg_kinds ::
  "'p env \<Rightarrow> 'p \<Rightarrow> 'v kpi \<Rightarrow> string list \<Rightarrow> ('p, 'v) session \<Rightarrow>
   (error + unit) \<times> ('p, 'v) session" where
  "loop_agg_kinds E now kpi [] s = (Inr (), s)"
| "loop_agg_kinds E now kpi (agg_kind # rest) s =
     (case compute_kpi_values_for_aggregation_kind E now kpi agg_kind s of
        (Inl e, s1) \<Rightarrow> (Inl e, s1)
      | (Inr u, s1) \<Rightarrow> loop_agg_kinds E now kpi rest s1)"

fun loop_kpis ::
  "'p env \<Rightarrow> 'p \<Rightarrow> 'v kpi list \<Rightarrow> string list \<Rightarrow> ('p, 'v) session \<Rightarrow>
   (error + unit) \<times> ('p, 'v) session" where
  "loop_kpis E now [] agg_kinds s = (Inr (), s)"
| "loop_kpis E now (kpi # rest) agg_kinds s =
     (case loop_agg_kinds E now kpi agg_kinds s of
        (Inl e, s1) \<Rightarrow> (Inl e, s1)
      | (Inr u, s1) \<Rightarrow> loop_kpis E now rest agg_kinds s1)"

text \<open>
  \<open>Processor.process_tick\<close>. The result is the returned flag or the exception,
  the processor as the call left it (\<open>current_period\<close> is assigned before the loops
  run) and the session.
\<close>

definition process_tick ::
  "'p env \<Rightarrow> ('p, 'v) processor \<Rightarrow> 'p \<Rightarrow> ('p, 'v) session \<Rightarrow>
   (error + bool) \<times> ('p, 'v) processor \<times> ('p, 'v) session" where
  "process_tick E self now s =
     (if current_period self = now then (Inr False, self, s)
      else
        let period_to_compute = current_period self;
            self1 = self\<lparr>current_period := now\<rparr>
        in case loop_kpis E period_to_compute (kpis self1) [''D'', ''W'', ''M''] s of
             (Inl e, s1) \<Rightarrow> (Inl e, self1, s1)
           | (Inr u, s1) \<Rightarrow>
               (let now_day = get_truncated_value E now ''D''
                in if current_day self1 \<noteq> now_day
                   then (case loop_kpis E period_to_compute (kpis self1) [''Y''] s1 of
                           (Inl e, s2) \<Rightarrow> (Inl e, self1, s2)
                         | (Inr u, s2) \<Rightarrow>
                             (Inr True, self1\<lparr>current_day := now_day\<rparr>, s2))
                   else (Inr True, self1, s1)))"

text \<open>\<open>Processor.restore_from_db\<close>; it assigns no attribute of the processor.\<close>

definition restore_from_db ::
  "'p env \<Rightarrow> ('p, 'v) processor \<Rightarrow> ('p, 'v) session \<Rightarrow>
   (error + unit) \<times> ('p, 'v) processor \<times> ('p, 'v) session" where
  "restore_from_db E self s =
     (let (last, s0) = get_last_current_period s
      in case last of
           None \<Rightarrow> (Inr (), self, s0)
         | Some lastPeriod \<Rightarrow>
             (case (if lastPeriod \<noteq> current_period self
                    then loop_kpis E lastPeriod (kpis self) [''D'', ''W'', ''M''] s0
                    else (Inr (), s0)) of
                (Inl e, s1) \<Rightarrow> (Inl e, self, s1)
              | (Inr u, s1) \<Rightarrow>
                  (let lastPeriod_day = get_truncated_value E lastPeriod ''D''
                   in if current_day self \<noteq> lastPeriod_day
                      then (case loop_kpis E lastPeriod (kpis self) [''Y''] s1 of
                              (Inl e, s2) \<Rightarrow> (Inl e, self, s2)
                            | (Inr u, s2) \<Rightarrow> (Inr (), self, s2))
                      else (Inr (), self, s1))))"


subsection \<open>Reading the journal and the table\<close>

fun compute_of :: "('p, 'v) event \<Rightarrow> ('p \<times> int \<times> string) list" where
  "compute_of (Compute p k a) = [(p, k, a)]"
| "compute_of (GetKpiValues k a) = []"
| "compute_of (DeleteKpiValue k a l) = []"
| "compute_of (UpdateKpiValue k a l v) = []"
| "compute_of (AddKpiValue k a l v) = []"
| "compute_of GetLastCurrentPeriod = []"

text \<open>The recomputations that ran, in order: reference period, KPI id, aggregation kind.\<close>

definition computes :: "('p, 'v) event list \<Rightarrow> ('p \<times> int \<times> string) list" where
  "computes evs = concat (map compute_of evs)"


text \<open>The recomputations of a list of kinds for every KPI, as the loops issue them.\<close>

definition calls_for :: "'p \<Rightarrow> 'v kpi list \<Rightarrow> string list \<Rightarrow> ('p \<times> int \<times> string) list" where
  "calls_for p ks agg_kinds =
     concat (map (\<lambda>k. map (\<lambda>a. (p, unique_id k, a)) agg_kinds) ks)"

fun add_of :: "('p, 'v) event \<Rightarrow> (int \<times> string \<times> string) list" where
  "add_of (Compute p k a) = []"
| "add_of (GetKpiValues k a) = []"
| "add_of (DeleteKpiValue k a l) = []"
| "add_of (UpdateKpiValue k a l v) = []"
| "add_of (AddKpiValue k a l v) = [(k, a, l)]"
| "add_of GetLastCurrentPeriod = []"

text \<open>The keys of the values that were created, in order.\<close>

definition adds :: "('p, 'v) event list \<Rightarrow> (int \<times> string \<times> string) list" where
  "adds evs = concat (map add_of evs)"

text \<open>
  The exception that a recomputation raises for a reference period and an aggregation
  kind, if any: it comes from the retention resolver or from the window resolver.
\<close>

definition window_error :: "'p env \<Rightarrow> 'p \<Rightarrow> string \<Rightarrow> error option" where
  "window_error E now agg_kind =
     (case get_aggregations_to_keep E agg_kind now of
        Inl e \<Rightarrow> Some e
      | Inr keep \<Rightarrow>
          (case get_timestamps E agg_kind now of Inl e \<Rightarrow> Some e | Inr ts \<Rightarrow> None))"

text \<open>
  A loop over aggregation kinds for one reference period: the first exception it
  meets, if any, and the kinds it enters, up to and including the one that raises.
\<close>

fun first_error :: "'p env \<Rightarrow> 'p \<Rightarrow> string list \<Rightarrow> error option" where
  "first_error E now [] = None"
| "first_error E now (a # rest) =
     (case window_error E now a of Some e \<Rightarrow> Some e | None \<Rightarrow> first_error E now rest)"

fun attempted :: "'p env \<Rightarrow> 'p \<Rightarrow> string list \<Rightarrow> string list" where
  "attempted E now [] = []"
| "attempted E now (a # rest) =
     (if window_error E now a = None then a # attempted E now rest else [a])"

text \<open>
  What the scan leaves of a row, given the labels \<open>seen\<close> of the values scanned: a
  row of the KPI and kind survives unless its label was seen and is pruned, and a
  surviving row with the current label, if that label was seen, carries the new value.
\<close>

definition survives ::
  "int \<Rightarrow> string \<Rightarrow> string list option \<Rightarrow> string set \<Rightarrow> 'v kpi_value_row \<Rightarrow> bool" where
  "survives kpi_id agg_kind keep seen r =
     (\<not> (has_key kpi_id agg_kind r \<and> row_agg_value r \<in> seen
          \<and> is_pruned keep (row_agg_value r)))"

definition refreshed ::
  "int \<Rightarrow> string \<Rightarrow> string \<Rightarrow> string set \<Rightarrow> 'v \<Rightarrow> 'v kpi_value_row \<Rightarrow> 'v kpi_value_row" where
  "refreshed kpi_id agg_kind current seen v r =
     (if has_key kpi_id agg_kind r \<and> row_agg_value r = current \<and> current \<in> seen
      then r\<lparr>row_kpi_value := v\<rparr> else r)"

text \<open>The label, at an aggregation kind, of a period shifted by a \<open>relativedelta\<close>.\<close>

definition shifted_label :: "'p env \<Rightarrow> 'p \<Rightarrow> relativedelta \<Rightarrow> string \<Rightarrow> string" where
  "shifted_label E now delta agg_kind =
     get_truncated_value E (get_shifted E now delta) agg_kind"

text \<open>Shifting a period by a zero \<open>relativedelta\<close> gives the period itself.\<close>

definition zero_shift_is_identity :: "'p env \<Rightarrow> 'p \<Rightarrow> bool" where
  "zero_shift_is_identity E now =
     (get_shifted E now (Days 0) = now \<and> get_shifted E now (Weeks 0) = now
      \<and> get_shifted E now (Months 0) = now)"

text \<open>The bucket labels persisted for a KPI and an aggregation kind, one per row.\<close>

definition labels_of :: "int \<Rightarrow> string \<Rightarrow> ('p, 'v) session \<Rightarrow> string list" where
  "labels_of kpi_id agg_kind s =
     map row_agg_value (filter (has_key kpi_id agg_kind) (kpi_values s))"

text \<open>The key of a row: KPI id, aggregation kind and bucket label.\<close>

definition row_key :: "'v kpi_value_row \<Rightarrow> int \<times> string \<times> string" where
  "row_key r = (row_kpi_id r, row_agg_kind r, row_agg_value r)"


subsection \<open>A calendar instance of the period interface\<close>

text \<open>
  Modelled from the spec: the class Period is not among the sources. The spec has a
  period truncate to a label per granularity (day, week, month, year), shift by days,
  weeks or months with calendar semantics, and expose year, month, day and weekday.
  This instance is a wall-clock hour; labels are \<open>YYYY-MM-DD\<close>, the Monday of the week
  prefixed with W, \<open>YYYY-MM\<close> and \<open>YYYY\<close>; a month shift clamps the day to the
  length of the target month; the weekday is ISO (Monday is 1), which makes the weekly
  window start on Monday; timestamps are read in UTC. It serves the concrete runs
  below; the general theorems hold for every instance.
\<close>

record hour_period =
  p_year :: int
  p_month :: int
  p_day :: int
  p_hour :: int

definition digit_char :: "int \<Rightarrow> char" where
  "digit_char d =
     (if d = 0 then CHR ''0'' else if d = 1 then CHR ''1'' else if d = 2 then CHR ''2''
      else if d = 3 then CHR ''3'' else if d = 4 then CHR ''4'' else if d = 5 then CHR ''5''
      else if d = 6 then CHR ''6'' else if d = 7 then CHR ''7'' else if d = 8 then CHR ''8''
      else CHR ''9'')"

definition two_digits :: "int \<Rightarrow> string" where
  "two_digits n = [digit_char (n div 10 mod 10), digit_char (n mod 10)]"

definition four_digits :: "int \<Rightarrow> string" where
  "four_digits n = two_digits (n div 100) @ two_digits n"

definition day_label :: "int \<Rightarrow> int \<Rightarrow> int \<Rightarrow> string" where
  "day_label y m d = four_digits y @ ''-'' @ two_digits m @ ''-'' @ two_digits d"

definition hp_ordinal :: "hour_period \<Rightarrow> int" where
  "hp_ordinal p = ymd2ord (p_year p) (p_month p) (p_day p)"

definition hp_weekday :: "hour_period \<Rightarrow> int" where
  "hp_weekday p = (hp_ordinal p + 6) mod 7 + 1"

definition hp_truncated :: "hour_period \<Rightarrow> string \<Rightarrow> string" where
  "hp_truncated p agg_kind =
     (if agg_kind = ''D'' then day_label (p_year p) (p_month p) (p_day p)
      else if agg_kind = ''W'' then
        (let monday = ord2ymd (hp_ordinal p - (hp_weekday p - 1))
         in ''W'' @ day_label (dt_year monday) (dt_month monday) (dt_day monday))
      else if agg_kind = ''M'' then four_digits (p_year p) @ ''-'' @ two_digits (p_month p)
      else four_digits (p_year p))"

definition hp_shifted :: "hour_period \<Rightarrow> relativedelta \<Rightarrow> hour_period" where
  "hp_shifted p delta =
     (case delta of
        Days n \<Rightarrow>
          (let dt = ord2ymd (hp_ordinal p + n)
           in p\<lparr>p_year := dt_year dt, p_month := dt_month dt, p_day := dt_day dt\<rparr>)
      | Weeks n \<Rightarrow>
          (let dt = ord2ymd (hp_ordinal p + 7 * n)
           in p\<lparr>p_year := dt_year dt, p_month := dt_month dt, p_day := dt_day dt\<rparr>)
      | Months n \<Rightarrow>
          (let total = p_year p * 12 + (p_month p - 1) + n;
               y = total div 12;
               m = total mod 12 + 1
           in p\<lparr>p_year := y, p_month := m, p_day := min (p_day p) (days_in_month y m)\<rparr>))"

definition utc_timestamp :: "datetime \<Rightarrow> int" where
  "utc_timestamp dt = (toordinal dt - 719163) * 86400"

definition calendar :: "hour_period env" where
  "calendar =
     \<lparr>get_truncated_value = hp_truncated, get_shifted = hp_shifted,
      year = p_year, month = p_month, day = p_day, weekday = hp_weekday,
      timestamp = utc_timestamp\<rparr>"

text \<open>The chronological order of the hours of the calendar instance.\<close>

definition hp_hours :: "hour_period \<Rightarrow> int" where
  "hp_hours p = hp_ordinal p * 24 + p_hour p"

definition earlier :: "hour_period \<Rightarrow> hour_period \<Rightarrow> bool" where
  "earlier p q = (hp_hours p < hp_hours q)"

definition at_hour :: "int \<Rightarrow> int \<Rightarrow> int \<Rightarrow> int \<Rightarrow> hour_period" where
  "at_hour y m d h = \<lparr>p_year = y, p_month = m, p_day = d, p_hour = h\<rparr>"

text \<open>A KPI for the concrete runs: its value is the length of the window in seconds.\<close>

definition window_kpi :: "int \<Rightarrow> int kpi" where
  "window_kpi n = \<lparr>unique_id = n, get_value = (\<lambda>agg_kind start_ts stop_ts. stop_ts - start_ts)\<rparr>"

definition empty_session :: "(hour_period, int) session" where
  "empty_session = \<lparr>kpi_values = [], last_current_period = None, journal = []\<rparr>"

text \<open>A processor created at an hour of the calendar instance, tracking one KPI.\<close>

definition processor_at :: "int \<Rightarrow> int \<Rightarrow> int \<Rightarrow> int \<Rightarrow> (hour_period, int) processor" where
  "processor_at y m d h = (Processor calendar (at_hour y m d h))\<lparr>kpis := [window_kpi 1]\<rparr>"


definition marked_session :: "(hour_period, int) session" where
  "marked_session =
     \<lparr>kpi_values = [], last_current_period = Some (at_hour 2024 3 15 13), journal = []\<rparr>"


text \<open>
  A processor tracking two KPIs, and a session whose persisted marker is the last hour
  of 2023.
\<close>

definition two_kpi_processor_at ::
  "int \<Rightarrow> int \<Rightarrow> int \<Rightarrow> int \<Rightarrow> (hour_period, int) processor" where
  "two_kpi_processor_at y m d h =
     (Processor calendar (at_hour y m d h))\<lparr>kpis := [window_kpi 1, window_kpi 2]\<rparr>"

definition december_marked_session :: "(hour_period, int) session" where
  "december_marked_session =
     \<lparr>kpi_values = [], last_current_period = Some (at_hour 2023 12 31 23), journal = []\<rparr>"


section \<open>Auxiliary lemmas\<close>

subsection \<open>One recomputation\<close>

lemma computes_append [simp]: "computes (xs @ ys) = computes xs @ computes ys"
  by (simp add: computes_def)

lemma adds_append [simp]: "adds (xs @ ys) = adds xs @ adds ys"
  by (simp add: adds_def)

lemma rows_delete:
  "kpi_values (delete_kpi_value k a l s) =
     filter (\<lambda>r. \<not> (has_key k a r \<and> row_agg_value r = l)) (kpi_values s)"
  by (simp add: delete_kpi_value_def record_event_def)

lemma rows_update:
  "kpi_values (update_kpi_value k a l v s) =
     map (\<lambda>r. if has_key k a r \<and> row_agg_value r = l then r\<lparr>row_kpi_value := v\<rparr> else r)
       (kpi_values s)"
  by (simp add: update_kpi_value_def record_event_def)

lemma filter_survives_update:
  "filter (survives k a keep seen)
     (map (\<lambda>r. if has_key k a r \<and> row_agg_value r = l then r\<lparr>row_kpi_value := v\<rparr> else r) xs)
   = map (\<lambda>r. if has_key k a r \<and> row_agg_value r = l then r\<lparr>row_kpi_value := v\<rparr> else r)
       (filter (survives k a keep seen) xs)"
  by (induction xs) (simp_all add: survives_def has_key_def)

lemma filter_survives_step:
  "filter (survives k a keep seen)
     (filter (\<lambda>r. \<not> (is_pruned keep l \<and> has_key k a r \<and> row_agg_value r = l)) xs)
   = filter (survives k a keep (insert l seen)) xs"
  by (induction xs) (auto simp: survives_def)

lemma map_refreshed_hit:
  "map (refreshed k a c seen v)
     (map (\<lambda>r. if has_key k a r \<and> row_agg_value r = c then r\<lparr>row_kpi_value := v\<rparr> else r) xs)
   = map (refreshed k a c (insert c seen) v) xs"
  by (induction xs) (simp_all add: refreshed_def has_key_def)

lemma refreshed_miss:
  "l \<noteq> c \<Longrightarrow> refreshed k a c (insert l seen) v = refreshed k a c seen v"
  by (simp add: refreshed_def fun_eq_iff)

lemma scan_values_rows:
  "kpi_values (snd (scan_values kpi a cur keep ts vs flag s)) =
     map (refreshed (unique_id kpi) a cur (agg_value ` set vs)
            (get_value kpi a (start ts) (stop ts)))
       (filter (survives (unique_id kpi) a keep (agg_value ` set vs)) (kpi_values s))"
proof (induction vs arbitrary: flag s)
  case Nil
  have "filter (survives (unique_id kpi) a keep {}) (kpi_values s) = kpi_values s"
    by (simp add: survives_def)
  moreover have "map (refreshed (unique_id kpi) a cur {} (get_value kpi a (start ts) (stop ts)))
      (kpi_values s) = kpi_values s"
    by (rule map_idI) (simp add: refreshed_def)
  ultimately show ?case by simp
next
  case (Cons v vs)
  define s1 where "s1 = (if is_pruned keep (agg_value v)
             then delete_kpi_value (unique_id kpi) a (agg_value v) s else s)"
  have rows1: "kpi_values s1 =
      filter (\<lambda>r. \<not> (is_pruned keep (agg_value v) \<and> has_key (unique_id kpi) a r
                       \<and> row_agg_value r = agg_value v)) (kpi_values s)"
    by (simp add: s1_def rows_delete)
  show ?case
  proof (cases "agg_value v = cur")
    case True
    have "scan_values kpi a cur keep ts (v # vs) flag s =
        scan_values kpi a cur keep ts vs True
          (update_kpi_value (unique_id kpi) a (agg_value v)
             (get_value kpi a (start ts) (stop ts)) s1)"
      using True by (simp add: s1_def Let_def)
    then show ?thesis
      using True
      by (simp only: Cons.IH rows_update rows1 filter_survives_update filter_survives_step
          map_refreshed_hit list.set image_insert)
  next
    case False
    have "scan_values kpi a cur keep ts (v # vs) flag s =
        scan_values kpi a cur keep ts vs flag s1"
      using False by (simp add: s1_def Let_def)
    then show ?thesis
      using False
      by (simp only: Cons.IH rows1 filter_survives_step refreshed_miss [OF False]
          list.set image_insert)
  qed
qed

lemma scan_values_flag:
  "fst (scan_values kpi a cur keep ts vs flag s) = (flag \<or> cur \<in> agg_value ` set vs)"
  by (induction vs arbitrary: flag s) (auto simp: Let_def)

lemma adds_record_event [simp]: "adds (journal (record_event ev s)) = adds (journal s) @ add_of ev"
  by (simp add: record_event_def adds_def)

lemma computes_record_event [simp]:
  "computes (journal (record_event ev s)) = computes (journal s) @ compute_of ev"
  by (simp add: record_event_def computes_def)

lemma scan_values_quiet:
  "adds (journal (snd (scan_values kpi a cur keep ts vs flag s))) = adds (journal s)
   \<and> computes (journal (snd (scan_values kpi a cur keep ts vs flag s))) = computes (journal s)
   \<and> last_current_period (snd (scan_values kpi a cur keep ts vs flag s)) = last_current_period s"
  by (induction vs arbitrary: flag s)
     (simp_all add: Let_def delete_kpi_value_def update_kpi_value_def record_event_def
        adds_def computes_def)

lemma seen_labels:
  "agg_value ` set (fst (get_kpi_values k a s)) = set (labels_of k a s)"
  by (simp add: get_kpi_values_def labels_of_def image_image)

lemma rows_get_kpi_values [simp]:
  "kpi_values (snd (get_kpi_values k a s)) = kpi_values s"
  by (simp add: get_kpi_values_def record_event_def)

lemma rows_record_event [simp]: "kpi_values (record_event ev s) = kpi_values s"
  by (simp add: record_event_def)

lemma labels_record_event [simp]: "labels_of k a (record_event ev s) = labels_of k a s"
  by (simp add: labels_of_def)

lemma compute_result:
  "fst (compute_kpi_values_for_aggregation_kind E now kpi a s) =
     (case window_error E now a of Some e \<Rightarrow> Inl e | None \<Rightarrow> Inr ())"
  by (simp add: compute_kpi_values_for_aggregation_kind_def window_error_def Let_def
      case_prod_beta split: sum.splits)

lemma compute_rows_error:
  "window_error E now a = Some e \<Longrightarrow>
   kpi_values (snd (compute_kpi_values_for_aggregation_kind E now kpi a s)) = kpi_values s"
  by (simp add: compute_kpi_values_for_aggregation_kind_def window_error_def Let_def
      case_prod_beta split: sum.splits)

lemma compute_rows_ok:
  assumes "get_aggregations_to_keep E a now = Inr keep"
    and "get_timestamps E a now = Inr ts"
  shows "kpi_values (snd (compute_kpi_values_for_aggregation_kind E now kpi a s)) =
     map (refreshed (unique_id kpi) a (get_truncated_value E now a)
            (set (labels_of (unique_id kpi) a s)) (get_value kpi a (start ts) (stop ts)))
       (filter (survives (unique_id kpi) a keep (set (labels_of (unique_id kpi) a s)))
          (kpi_values s))
     @ (if get_truncated_value E now a \<in> set (labels_of (unique_id kpi) a s) then []
        else [\<lparr>row_kpi_id = unique_id kpi, row_agg_kind = a,
               row_agg_value = get_truncated_value E now a,
               row_kpi_value = get_value kpi a (start ts) (stop ts)\<rparr>])"
  using assms
  by (simp add: compute_kpi_values_for_aggregation_kind_def Let_def case_prod_beta
      scan_values_rows scan_values_flag seen_labels add_kpi_value_def)

lemma compute_computes:
  "computes (journal (snd (compute_kpi_values_for_aggregation_kind E now kpi a s))) =
     computes (journal s) @ [(now, unique_id kpi, a)]"
  by (simp add: compute_kpi_values_for_aggregation_kind_def Let_def case_prod_beta
      scan_values_quiet get_kpi_values_def add_kpi_value_def split: sum.splits)

lemma compute_adds:
  "adds (journal (snd (compute_kpi_values_for_aggregation_kind E now kpi a s))) =
     adds (journal s) @
       (if window_error E now a = None
           \<and> get_truncated_value E now a \<notin> set (labels_of (unique_id kpi) a s)
        then [(unique_id kpi, a, get_truncated_value E now a)] else [])"
  by (simp add: compute_kpi_values_for_aggregation_kind_def Let_def case_prod_beta
      window_error_def scan_values_quiet scan_values_flag seen_labels
      add_kpi_value_def split: sum.splits)
     (simp add: get_kpi_values_def)

lemma compute_marker:
  "last_current_period (snd (compute_kpi_values_for_aggregation_kind E now kpi a s)) =
     last_current_period s"
  by (simp add: compute_kpi_values_for_aggregation_kind_def Let_def case_prod_beta
      scan_values_quiet get_kpi_values_def add_kpi_value_def record_event_def
      split: sum.splits)

lemma labels_after_scan:
  "\<forall>r\<in>set xs. has_key k a r \<longrightarrow> row_agg_value r \<in> seen \<Longrightarrow>
   map row_agg_value (filter (has_key k a)
      (map (refreshed k a c seen v) (filter (survives k a keep seen) xs)))
   = filter (\<lambda>l. \<not> is_pruned keep l) (map row_agg_value (filter (has_key k a) xs))"
proof (induction xs)
  case Nil
  show ?case by simp
next
  case (Cons x xs)
  have key: "has_key k a (refreshed k a c seen v x) = has_key k a x"
    by (simp add: refreshed_def has_key_def)
  have lab: "row_agg_value (refreshed k a c seen v x) = row_agg_value x"
    by (simp add: refreshed_def)
  have IH: "map row_agg_value (filter (has_key k a)
      (map (refreshed k a c seen v) (filter (survives k a keep seen) xs)))
   = filter (\<lambda>l. \<not> is_pruned keep l) (map row_agg_value (filter (has_key k a) xs))"
    using Cons by simp
  show ?case
  proof (cases "has_key k a x")
    case True
    then have "row_agg_value x \<in> seen" using Cons.prems by simp
    then have "survives k a keep seen x = (\<not> is_pruned keep (row_agg_value x))"
      using True by (simp add: survives_def)
    then show ?thesis using True IH by (simp add: key lab)
  next
    case False
    then have "survives k a keep seen x" by (simp add: survives_def)
    then show ?thesis using False IH by (simp add: key lab)
  qed
qed


lemma compute_labels_ok:
  assumes "get_aggregations_to_keep E a now = Inr keep"
    and "get_timestamps E a now = Inr ts"
  shows "labels_of (unique_id kpi) a (snd (compute_kpi_values_for_aggregation_kind E now kpi a s)) =
     filter (\<lambda>l. \<not> is_pruned keep l) (labels_of (unique_id kpi) a s)
     @ (if get_truncated_value E now a \<in> set (labels_of (unique_id kpi) a s) then []
        else [get_truncated_value E now a])"
proof -
  have sub: "\<forall>r\<in>set (kpi_values s). has_key (unique_id kpi) a r \<longrightarrow>
      row_agg_value r \<in> set (labels_of (unique_id kpi) a s)"
    by (simp add: labels_of_def)
  have "labels_of (unique_id kpi) a (snd (compute_kpi_values_for_aggregation_kind E now kpi a s))
      = map row_agg_value (filter (has_key (unique_id kpi) a)
          (kpi_values (snd (compute_kpi_values_for_aggregation_kind E now kpi a s))))"
    by (simp add: labels_of_def)
  also have "\<dots> = filter (\<lambda>l. \<not> is_pruned keep l)
        (map row_agg_value (filter (has_key (unique_id kpi) a) (kpi_values s)))
     @ (if get_truncated_value E now a \<in> set (labels_of (unique_id kpi) a s) then []
        else [get_truncated_value E now a])"
    by (simp add: compute_rows_ok [OF assms] labels_after_scan [OF sub] has_key_def)
  finally show ?thesis by (simp add: labels_of_def)
qed



subsection \<open>The calendar instance on 2024-03-15\<close>

lemmas calendar_defs = calendar_def hp_truncated_def hp_shifted_def hp_weekday_def hp_ordinal_def
  at_hour_def day_label_def four_digits_def two_digits_def digit_char_def utc_timestamp_def
  toordinal_def ymd2ord_def ord2ymd_def days_before_year_def days_before_month_def
  days_before_month_table_def is_leap_def days_in_month_def datetime_new_def add_days_def

lemma march15_day_label:
  "get_truncated_value calendar (at_hour 2024 3 15 h) ''D'' = ''2024-03-15''"
  by (simp add: calendar_defs)

lemma march15_window_D:
  "get_timestamps calendar ''D'' (at_hour 2024 3 15 h) = Inr \<lparr>start = 1710460800, stop = 1710547200\<rparr>"
  by (simp add: get_timestamps_def calendar_defs Let_def)

lemma march15_window_W:
  "get_timestamps calendar ''W'' (at_hour 2024 3 15 h) = Inr \<lparr>start = 1710115200, stop = 1710720000\<rparr>"
  by (simp add: get_timestamps_def calendar_defs Let_def)

lemma march15_window_M:
  "get_timestamps calendar ''M'' (at_hour 2024 3 15 h) = Inr \<lparr>start = 1709251200, stop = 1711929600\<rparr>"
  by (simp add: get_timestamps_def calendar_defs Let_def)

lemma march15_window_Y:
  "get_timestamps calendar ''Y'' (at_hour 2024 3 15 h) = Inr \<lparr>start = 1704067200, stop = 1735689600\<rparr>"
  by (simp add: get_timestamps_def calendar_defs Let_def)

lemma march15_keep_D:
  "get_aggregations_to_keep calendar ''D'' (at_hour 2024 3 15 14) =
     Inr (Some [''2024-03-15'', ''2024-03-14'', ''2024-03-13'', ''2024-03-12'',
                ''2024-03-11'', ''2024-03-10'', ''2024-03-09''])"
  by code_simp


subsection \<open>The retention list and a second recomputation\<close>

lemma keep_D:
  "get_aggregations_to_keep E ''D'' now =
     Inr (Some (map (\<lambda>delta. get_truncated_value E
                           (get_shifted E now (Days (- int delta))) ''D'') [0..<7]))"
  by (simp add: get_aggregations_to_keep_def)

lemma keep_W:
  "get_aggregations_to_keep E ''W'' now =
     Inr (Some (map (\<lambda>delta. get_truncated_value E
                           (get_shifted E now (Weeks (- int delta))) ''W'') [0..<4]))"
  by (simp add: get_aggregations_to_keep_def)

lemma keep_M:
  "get_aggregations_to_keep E ''M'' now =
     Inr (Some (map (\<lambda>delta. get_truncated_value E
                           (get_shifted E now (Months (- int delta))) ''M'') [0..<12]))"
  by (simp add: get_aggregations_to_keep_def)

lemma keep_Y: "get_aggregations_to_keep E ''Y'' now = Inr None"
  by (simp add: get_aggregations_to_keep_def)

lemma keep_other:
  "a \<noteq> ''D'' \<Longrightarrow> a \<noteq> ''W'' \<Longrightarrow> a \<noteq> ''M'' \<Longrightarrow> a \<noteq> ''Y'' \<Longrightarrow>
   get_aggregations_to_keep E a now = Inl AttributeError"
  by (simp add: get_aggregations_to_keep_def)

lemma not_pruned_first:
  assumes "f (0::nat) = c" and "0 < n"
  shows "\<not> is_pruned (Some (map f [0..<n])) c"
proof -
  have "c \<in> f ` {0..<n}" using assms by (auto intro!: image_eqI [where x = 0])
  then show ?thesis by (simp add: is_pruned_def)
qed

lemma not_pruned_current:
  assumes "zero_shift_is_identity E now"
    and "get_aggregations_to_keep E a now = Inr keep"
  shows "\<not> is_pruned keep (get_truncated_value E now a)"
proof -
  have z: "get_shifted E now (Days 0) = now" "get_shifted E now (Weeks 0) = now"
      "get_shifted E now (Months 0) = now"
    using assms(1) by (simp_all add: zero_shift_is_identity_def)
  consider "a = ''D''" | "a = ''W''" | "a = ''M''" | "a = ''Y''"
    | "a \<noteq> ''D''" "a \<noteq> ''W''" "a \<noteq> ''M''" "a \<noteq> ''Y''"
    by blast
  then show ?thesis
  proof cases
    case 1
    have "keep = Some (map (\<lambda>delta. get_truncated_value E
                           (get_shifted E now (Days (- int delta))) ''D'') [0..<7])"
      using assms(2) unfolding 1 keep_D by (simp only: sum.inject)
    then show ?thesis unfolding 1 by (simp only: not_pruned_first z of_nat_0 minus_zero simp_thms) 
  next
    case 2
    have "keep = Some (map (\<lambda>delta. get_truncated_value E
                           (get_shifted E now (Weeks (- int delta))) ''W'') [0..<4])"
      using assms(2) unfolding 2 keep_W by (simp only: sum.inject)
    then show ?thesis unfolding 2 by (simp only: not_pruned_first z of_nat_0 minus_zero simp_thms)
  next
    case 3
    have "keep = Some (map (\<lambda>delta. get_truncated_value E
                           (get_shifted E now (Months (- int delta))) ''M'') [0..<12])"
      using assms(2) unfolding 3 keep_M by (simp only: sum.inject)
    then show ?thesis unfolding 3 by (simp only: not_pruned_first z of_nat_0 minus_zero simp_thms)
  next
    case 4
    then have "keep = None" using assms(2) by (simp add: keep_Y)
    then show ?thesis by (simp add: is_pruned_def)
  next
    case 5
    then show ?thesis using assms(2) by (simp add: keep_other)
  qed
qed

lemma refreshed_rows_current:
  assumes seen: "\<forall>r\<in>set xs. has_key k a r \<longrightarrow> row_agg_value r \<in> seen"
    and mem: "r \<in> set (map (refreshed k a c seen v) (filter P xs))"
    and key: "has_key k a r" and lab: "row_agg_value r = c"
  shows "row_kpi_value r = v"
proof -
  obtain r0 where r0: "r0 \<in> set xs" "r = refreshed k a c seen v r0"
    using mem by auto
  have "has_key k a r0" using key r0(2) by (simp add: refreshed_def has_key_def split: if_splits)
  moreover have "row_agg_value r0 = c" using lab r0(2) by (simp add: refreshed_def split: if_splits)
  moreover have "c \<in> seen" using seen r0(1) calculation by blast
  ultimately have "r = r0\<lparr>row_kpi_value := v\<rparr>" using r0(2) by (simp add: refreshed_def)
  then show ?thesis by simp
qed

lemma compute_settled:
  assumes ok: "get_aggregations_to_keep E a now = Inr keep" "get_timestamps E a now = Inr ts"
    and cur_in: "get_truncated_value E now a \<in> set (labels_of (unique_id kpi) a s1)"
    and kept: "\<forall>l\<in>set (labels_of (unique_id kpi) a s1). \<not> is_pruned keep l"
    and fresh: "\<forall>r\<in>set (kpi_values s1).
        has_key (unique_id kpi) a r \<and> row_agg_value r = get_truncated_value E now a
        \<longrightarrow> row_kpi_value r = get_value kpi a (start ts) (stop ts)"
  shows "kpi_values (snd (compute_kpi_values_for_aggregation_kind E now kpi a s1)) = kpi_values s1"
proof -
  have surv: "filter (survives (unique_id kpi) a keep (set (labels_of (unique_id kpi) a s1)))
      (kpi_values s1) = kpi_values s1"
  proof (rule filter_True, rule ballI)
    fix r assume "r \<in> set (kpi_values s1)"
    then have "has_key (unique_id kpi) a r \<Longrightarrow>
        row_agg_value r \<in> set (labels_of (unique_id kpi) a s1)"
      by (simp add: labels_of_def)
    then show "survives (unique_id kpi) a keep (set (labels_of (unique_id kpi) a s1)) r"
      using kept by (auto simp: survives_def)
  qed
  have same: "map (refreshed (unique_id kpi) a (get_truncated_value E now a)
         (set (labels_of (unique_id kpi) a s1)) (get_value kpi a (start ts) (stop ts)))
       (kpi_values s1) = kpi_values s1"
  proof (rule map_idI)
    fix r assume "r \<in> set (kpi_values s1)"
    then have "has_key (unique_id kpi) a r \<and> row_agg_value r = get_truncated_value E now a
        \<longrightarrow> row_kpi_value r = get_value kpi a (start ts) (stop ts)"
      using fresh by blast
    then show "refreshed (unique_id kpi) a (get_truncated_value E now a)
         (set (labels_of (unique_id kpi) a s1)) (get_value kpi a (start ts) (stop ts)) r = r"
      by (auto simp: refreshed_def)
  qed
  show ?thesis
    unfolding compute_rows_ok [OF ok] surv same using cur_in by simp
qed

subsection \<open>The retention lists written out\<close>

lemma upt_7: "[0..<7] = [0, 1, 2, 3, 4, 5, 6::nat]"
  by code_simp

lemma upt_4: "[0..<4] = [0, 1, 2, 3::nat]"
  by code_simp

lemma upt_12: "[0..<12] = [0, 1, 2, 3, 4, 5, 6, 7, 8, 9, 10, 11::nat]"
  by code_simp

lemma row_key_refreshed [simp]: "row_key (refreshed k a c seen v r) = row_key r"
  by (simp add: refreshed_def row_key_def)

lemma survives_keep_all [simp]: "survives k a None seen r"
  by (simp add: survives_def is_pruned_def)

lemma yearly_rows_prefix:
  "prefix (map row_key (kpi_values s))
     (map row_key (kpi_values (snd (compute_kpi_values_for_aggregation_kind E now kpi ''Y'' s))))"
proof (cases "window_error E now ''Y''")
  case (Some e)
  then show ?thesis by (simp add: compute_rows_error)
next
  case None
  then obtain ts where ts: "get_timestamps E ''Y'' now = Inr ts"
    by (auto simp: window_error_def keep_Y split: sum.splits)
  show ?thesis
    by (simp add: compute_rows_ok [OF keep_Y ts] o_def)
qed

subsection \<open>The loops over KPIs and aggregation kinds\<close>

lemma attempted_all: "first_error E now kinds = None \<Longrightarrow> attempted E now kinds = kinds"
  by (induction kinds) (auto split: option.splits)

lemma loop_agg_kinds_result:
  "fst (loop_agg_kinds E now kpi kinds s) =
     (case first_error E now kinds of Some e \<Rightarrow> Inl e | None \<Rightarrow> Inr ())"
proof (induction kinds arbitrary: s)
  case Nil
  show ?case by simp
next
  case (Cons a kinds)
  obtain r s1 where c: "compute_kpi_values_for_aggregation_kind E now kpi a s = (r, s1)"
    by (cases "compute_kpi_values_for_aggregation_kind E now kpi a s")
  have r: "r = (case window_error E now a of Some e \<Rightarrow> Inl e | None \<Rightarrow> Inr ())"
    using compute_result [of E now kpi a s] c by simp
  show ?case
    by (cases "window_error E now a") (simp_all add: c r Cons.IH)
qed

lemma loop_agg_kinds_computes:
  "computes (journal (snd (loop_agg_kinds E now kpi kinds s))) =
     computes (journal s) @ map (\<lambda>a. (now, unique_id kpi, a)) (attempted E now kinds)"
proof (induction kinds arbitrary: s)
  case Nil
  show ?case by simp
next
  case (Cons a kinds)
  obtain r s1 where c: "compute_kpi_values_for_aggregation_kind E now kpi a s = (r, s1)"
    by (cases "compute_kpi_values_for_aggregation_kind E now kpi a s")
  have r: "r = (case window_error E now a of Some e \<Rightarrow> Inl e | None \<Rightarrow> Inr ())"
    using compute_result [of E now kpi a s] c by simp
  have j: "computes (journal s1) = computes (journal s) @ [(now, unique_id kpi, a)]"
    using compute_computes [of E now kpi a s] c by simp
  show ?case
    by (cases "window_error E now a") (simp_all add: c r j Cons.IH)
qed

lemma loop_kpis_result:
  "fst (loop_kpis E now ks kinds s) =
     (if ks = [] then Inr ()
      else case first_error E now kinds of Some e \<Rightarrow> Inl e | None \<Rightarrow> Inr ())"
proof (induction ks arbitrary: s)
  case Nil
  show ?case by simp
next
  case (Cons k ks)
  obtain r s1 where c: "loop_agg_kinds E now k kinds s = (r, s1)"
    by (cases "loop_agg_kinds E now k kinds s")
  have r: "r = (case first_error E now kinds of Some e \<Rightarrow> Inl e | None \<Rightarrow> Inr ())"
    using loop_agg_kinds_result [of E now k kinds s] c by simp
  show ?case
    by (cases "first_error E now kinds") (simp_all add: c r Cons.IH)
qed

lemma calls_for_Cons:
  "calls_for p (k # ks) kinds = map (\<lambda>a. (p, unique_id k, a)) kinds @ calls_for p ks kinds"
  by (simp add: calls_for_def)

lemma calls_for_Nil [simp]: "calls_for p [] kinds = []"
  by (simp add: calls_for_def)

lemma loop_kpis_computes:
  "computes (journal (snd (loop_kpis E now ks kinds s))) =
     computes (journal s) @
       (if first_error E now kinds = None then calls_for now ks kinds
        else calls_for now (take 1 ks) (attempted E now kinds))"
proof (induction ks arbitrary: s)
  case Nil
  show ?case by simp
next
  case (Cons k ks)
  obtain r s1 where c: "loop_agg_kinds E now k kinds s = (r, s1)"
    by (cases "loop_agg_kinds E now k kinds s")
  have r: "r = (case first_error E now kinds of Some e \<Rightarrow> Inl e | None \<Rightarrow> Inr ())"
    using loop_agg_kinds_result [of E now k kinds s] c by simp
  have j: "computes (journal s1) =
      computes (journal s) @ map (\<lambda>a. (now, unique_id k, a)) (attempted E now kinds)"
    using loop_agg_kinds_computes [of E now k kinds s] c by simp
  show ?case
  proof (cases "first_error E now kinds")
    case None
    then show ?thesis by (simp add: c r j Cons.IH calls_for_Cons attempted_all)
  next
    case (Some e)
    then show ?thesis by (simp add: c r j calls_for_Cons)
  qed
qed

lemma loop_kpis_computes_ok:
  assumes "fst (loop_kpis E now ks kinds s) = Inr ()"
  shows "computes (journal (snd (loop_kpis E now ks kinds s))) =
     computes (journal s) @ calls_for now ks kinds"
proof (cases "first_error E now kinds")
  case None
  then show ?thesis by (simp add: loop_kpis_computes)
next
  case (Some e)
  then have "ks = []" using assms by (simp add: loop_kpis_result split: if_splits)
  then show ?thesis by simp
qed

subsection \<open>One tick\<close>

lemma process_tick_period:
  "current_period (fst (snd (process_tick E self now s))) = now"
  by (simp add: process_tick_def Let_def split: prod.splits sum.splits)

lemma process_tick_kpis:
  "kpis (fst (snd (process_tick E self now s))) = kpis self"
  by (simp add: process_tick_def Let_def split: prod.splits sum.splits)

lemma process_tick_hourly_error:
  assumes "current_period self \<noteq> now" and "kpis self \<noteq> []"
    and "first_error E (current_period self) [''D'', ''W'', ''M''] = Some e"
  shows "process_tick E self now s =
     (Inl e, self\<lparr>current_period := now\<rparr>,
      snd (loop_kpis E (current_period self) (kpis self) [''D'', ''W'', ''M''] s))"
proof -
  obtain r s1 where l: "loop_kpis E (current_period self) (kpis self) [''D'', ''W'', ''M''] s = (r, s1)"
    by (cases "loop_kpis E (current_period self) (kpis self) [''D'', ''W'', ''M''] s")
  have "r = Inl e"
    using loop_kpis_result [of E "current_period self" "kpis self" "[''D'', ''W'', ''M'']" s]
      assms(2,3) l by simp
  then show ?thesis using assms(1) l by (simp add: process_tick_def Let_def)
qed



subsection \<open>The monthly window, and the calendar instance on 2023-12-31\<close>

lemma monthly_window_december:
  "month E now = 12 \<Longrightarrow> get_timestamps E ''M'' now = Inl ValueError"
  by (simp add: get_timestamps_def datetime_new_def split: sum.splits)

lemma monthly_window_before_december:
  assumes "1 \<le> year E now" and "year E now \<le> 9999"
    and "1 \<le> month E now" and "month E now \<le> 11"
  shows "get_timestamps E ''M'' now =
     Inr \<lparr>start = timestamp E \<lparr>dt_year = year E now, dt_month = month E now, dt_day = 1\<rparr>,
          stop = timestamp E \<lparr>dt_year = year E now, dt_month = month E now + 1, dt_day = 1\<rparr>\<rparr>"
  using assms by (simp add: get_timestamps_def datetime_new_def days_in_month_def)

lemma dec31_window_D:
  "get_timestamps calendar ''D'' (at_hour 2023 12 31 h) = Inr \<lparr>start = 1703980800, stop = 1704067200\<rparr>"
  by (simp add: get_timestamps_def calendar_defs Let_def)

lemma dec31_window_W:
  "get_timestamps calendar ''W'' (at_hour 2023 12 31 h) = Inr \<lparr>start = 1703462400, stop = 1704067200\<rparr>"
  by (simp add: get_timestamps_def calendar_defs Let_def)

lemma dec31_window_M:
  "get_timestamps calendar ''M'' (at_hour 2023 12 31 h) = Inl ValueError"
  by (rule monthly_window_december) (simp add: calendar_def at_hour_def)

lemma dec31_first_error:
  "first_error calendar (at_hour 2023 12 31 h) [''D'', ''W'', ''M''] = Some ValueError"
  by (simp add: window_error_def keep_D keep_W keep_M dec31_window_D dec31_window_W
      dec31_window_M)

lemma dec31_attempted:
  "attempted calendar (at_hour 2023 12 31 h) [''D'', ''W'', ''M''] = [''D'', ''W'', ''M'']"
  by (simp add: window_error_def keep_D keep_W keep_M dec31_window_D dec31_window_W
      dec31_window_M)

subsection \<open>The restart path\<close>

lemma attempted_prefix: "prefix (attempted E now kinds) kinds"
  by (induction kinds) auto

lemma loop_kpis_computes_prefix:
  "prefix (computes (journal (snd (loop_kpis E now ks kinds s))))
     (computes (journal s) @ calls_for now ks kinds)"
proof (cases "first_error E now kinds")
  case None
  then show ?thesis by (simp add: loop_kpis_computes)
next
  case (Some e)
  have "prefix (calls_for now (take 1 ks) (attempted E now kinds)) (calls_for now ks kinds)"
  proof (cases ks)
    case Nil
    then show ?thesis by simp
  next
    case (Cons k rest)
    have "prefix (map (\<lambda>a. (now, unique_id k, a)) (attempted E now kinds))
        (map (\<lambda>a. (now, unique_id k, a)) kinds)"
      by (rule map_mono_prefix) (rule attempted_prefix)
    then show ?thesis
      using Cons by (simp add: calls_for_Cons prefix_def) auto
  qed
  then show ?thesis using Some by (simp add: loop_kpis_computes)
qed

lemma restore_from_db_self:
  "fst (snd (restore_from_db E self s)) = self"
  by (simp add: restore_from_db_def get_last_current_period_def Let_def
      split: option.splits prod.splits sum.splits)

lemma restore_from_db_fresh:
  "last_current_period s = None \<Longrightarrow>
   restore_from_db E self s = (Inr (), self, record_event GetLastCurrentPeriod s)"
  by (simp add: restore_from_db_def get_last_current_period_def)

lemma restore_from_db_computes:
  assumes "last_current_period s = Some lastPeriod"
  shows "prefix (computes (journal (snd (snd (restore_from_db E self s)))))
       (computes (journal s) @
        (if lastPeriod \<noteq> current_period self
         then calls_for lastPeriod (kpis self) [''D'', ''W'', ''M''] else []) @
        (if current_day self \<noteq> get_truncated_value E lastPeriod ''D''
         then calls_for lastPeriod (kpis self) [''Y''] else []))"
    and "fst (restore_from_db E self s) = Inr () \<Longrightarrow>
       computes (journal (snd (snd (restore_from_db E self s)))) =
       computes (journal s) @
        (if lastPeriod \<noteq> current_period self
         then calls_for lastPeriod (kpis self) [''D'', ''W'', ''M''] else []) @
        (if current_day self \<noteq> get_truncated_value E lastPeriod ''D''
         then calls_for lastPeriod (kpis self) [''Y''] else [])"
proof -
  define s0 where "s0 = record_event GetLastCurrentPeriod s"
  define A where "A = (if lastPeriod \<noteq> current_period self
         then calls_for lastPeriod (kpis self) [''D'', ''W'', ''M''] else [])"
  define B where "B = (if current_day self \<noteq> get_truncated_value E lastPeriod ''D''
         then calls_for lastPeriod (kpis self) [''Y''] else [])"
  define h where "h = (if lastPeriod \<noteq> current_period self
         then loop_kpis E lastPeriod (kpis self) [''D'', ''W'', ''M''] s0 else (Inr (), s0))"
  obtain r1 s1 where h1: "h = (r1, s1)" by (cases h)
  have j0: "computes (journal s0) = computes (journal s)" by (simp add: s0_def)
  have p1: "prefix (computes (journal s1)) (computes (journal s) @ A)"
  proof (cases "lastPeriod \<noteq> current_period self")
    case True
    then have "s1 = snd (loop_kpis E lastPeriod (kpis self) [''D'', ''W'', ''M''] s0)"
      using h1 by (simp add: h_def)
    then show ?thesis
      using loop_kpis_computes_prefix [of E lastPeriod "kpis self" "[''D'', ''W'', ''M'']" s0] True
      by (simp add: A_def j0)
  next
    case False
    then have "s1 = s0" using h1 by (simp add: h_def)
    then show ?thesis using False by (simp add: A_def j0)
  qed
  have e1: "computes (journal s1) = computes (journal s) @ A" if "r1 = Inr ()"
  proof (cases "lastPeriod \<noteq> current_period self")
    case True
    then have "loop_kpis E lastPeriod (kpis self) [''D'', ''W'', ''M''] s0 = (Inr (), s1)"
      using h1 that by (simp add: h_def)
    then show ?thesis
      using loop_kpis_computes_ok [of E lastPeriod "kpis self" "[''D'', ''W'', ''M'']" s0] True
      by (simp add: A_def j0)
  next
    case False
    then have "s1 = s0" using h1 by (simp add: h_def)
    then show ?thesis using False by (simp add: A_def j0)
  qed
  define y where "y = loop_kpis E lastPeriod (kpis self) [''Y''] s1"
  obtain r2 s2 where y2: "y = (r2, s2)" by (cases y)
  have p2: "prefix (computes (journal s2)) (computes (journal s1) @ calls_for lastPeriod (kpis self) [''Y''])"
    using loop_kpis_computes_prefix [of E lastPeriod "kpis self" "[''Y'']" s1] y2
    by (simp add: y_def)
  have e2: "r2 = Inr () \<Longrightarrow>
      computes (journal s2) = computes (journal s1) @ calls_for lastPeriod (kpis self) [''Y'']"
    using loop_kpis_computes_ok [of E lastPeriod "kpis self" "[''Y'']" s1] y2
    by (simp add: y_def)
  have unfold: "restore_from_db E self s =
      (case r1 of
         Inl e \<Rightarrow> (Inl e, self, s1)
       | Inr u \<Rightarrow>
           if current_day self \<noteq> get_truncated_value E lastPeriod ''D''
           then (case r2 of Inl e \<Rightarrow> (Inl e, self, s2) | Inr u \<Rightarrow> (Inr (), self, s2))
           else (Inr (), self, s1))"
    using assms h1 y2
    by (simp add: restore_from_db_def get_last_current_period_def Let_def
        s0_def [symmetric] h_def [symmetric] y_def [symmetric] split: sum.splits)
  show "prefix (computes (journal (snd (snd (restore_from_db E self s)))))
       (computes (journal s) @
        (if lastPeriod \<noteq> current_period self
         then calls_for lastPeriod (kpis self) [''D'', ''W'', ''M''] else []) @
        (if current_day self \<noteq> get_truncated_value E lastPeriod ''D''
         then calls_for lastPeriod (kpis self) [''Y''] else []))"
    unfolding A_def [symmetric] B_def [symmetric]
  proof (cases r1)
    case (Inl e)
    have "prefix (computes (journal s1)) ((computes (journal s) @ A) @ B)"
      using p1 by (rule prefix_prefix)
    then show "prefix (computes (journal (snd (snd (restore_from_db E self s)))))
        (computes (journal s) @ A @ B)"
      using Inl by (simp add: unfold)
  next
    case (Inr u)
    then have j1: "computes (journal s1) = computes (journal s) @ A" using e1 by simp
    show "prefix (computes (journal (snd (snd (restore_from_db E self s)))))
        (computes (journal s) @ A @ B)"
    proof (cases "current_day self \<noteq> get_truncated_value E lastPeriod ''D''")
      case True
      then have "B = calls_for lastPeriod (kpis self) [''Y'']" by (simp add: B_def)
      then have "prefix (computes (journal s2)) (computes (journal s) @ A @ B)"
        using p2 j1 by simp
      then show ?thesis using Inr True by (simp add: unfold split: sum.splits)
    next
      case False
      then have "B = []" by (simp add: B_def)
      then show ?thesis using Inr False j1 by (simp add: unfold)
    qed
  qed
  show "computes (journal (snd (snd (restore_from_db E self s)))) =
       computes (journal s) @
        (if lastPeriod \<noteq> current_period self
         then calls_for lastPeriod (kpis self) [''D'', ''W'', ''M''] else []) @
        (if current_day self \<noteq> get_truncated_value E lastPeriod ''D''
         then calls_for lastPeriod (kpis self) [''Y''] else [])"
    if ok: "fst (restore_from_db E self s) = Inr ()"
    unfolding A_def [symmetric] B_def [symmetric]
  proof -
    have r1: "r1 = Inr ()" using ok by (cases r1) (simp_all add: unfold)
    then have j1: "computes (journal s1) = computes (journal s) @ A" using e1 by simp
    show "computes (journal (snd (snd (restore_from_db E self s)))) =
        computes (journal s) @ A @ B"
    proof (cases "current_day self \<noteq> get_truncated_value E lastPeriod ''D''")
      case True
      then have B: "B = calls_for lastPeriod (kpis self) [''Y'']" by (simp add: B_def)
      have r2: "r2 = Inr ()" using ok r1 True by (cases r2) (simp_all add: unfold)
      then show ?thesis using r1 True j1 e2 B by (simp add: unfold)
    next
      case False
      then have "B = []" by (simp add: B_def)
      then show ?thesis using r1 False j1 by (simp add: unfold)
    qed
  qed
qed

lemma restore_from_db_succeeds:
  assumes "last_current_period s = Some lastPeriod"
    and "first_error E lastPeriod [''D'', ''W'', ''M''] = None"
    and "first_error E lastPeriod [''Y''] = None"
  shows "fst (restore_from_db E self s) = Inr ()"
proof -
  define s0 where "s0 = record_event GetLastCurrentPeriod s"
  define h where "h = (if lastPeriod \<noteq> current_period self
         then loop_kpis E lastPeriod (kpis self) [''D'', ''W'', ''M''] s0 else (Inr (), s0))"
  obtain r1 s1 where h1: "h = (r1, s1)" by (cases h)
  have r1: "r1 = Inr ()"
    using loop_kpis_result [of E lastPeriod "kpis self" "[''D'', ''W'', ''M'']" s0] assms(2) h1
    by (auto simp: h_def split: if_splits)
  define y where "y = loop_kpis E lastPeriod (kpis self) [''Y''] s1"
  obtain r2 s2 where y2: "y = (r2, s2)" by (cases y)
  have r2: "r2 = Inr ()"
    using loop_kpis_result [of E lastPeriod "kpis self" "[''Y'']" s1] assms(3) y2
    by (simp add: y_def)
  show ?thesis
    using assms(1) h1 r1 y2 r2
    by (simp add: restore_from_db_def get_last_current_period_def Let_def
        s0_def [symmetric] h_def [symmetric] y_def [symmetric])
qed

lemma march15_no_errors:
  "first_error calendar (at_hour 2024 3 15 h) [''D'', ''W'', ''M''] = None"
  "first_error calendar (at_hour 2024 3 15 h) [''Y''] = None"
  by (simp_all add: window_error_def keep_D keep_W keep_M keep_Y march15_window_D
      march15_window_W march15_window_M march15_window_Y)

subsection \<open>A run of ticks\<close>






subsection \<open>The calendar instance over the hours of 2024-03-15\<close>










subsection \<open>The replay of the restart path\<close>

text \<open>
  What the restart path runs: nothing without a marker, the replay of the persisted
  period when no recomputation raises, a first part of it otherwise.
\<close>

lemma restore_from_db_replays:
  "fst (snd (restore_from_db E self s)) = self
   \<and> (last_current_period s = None \<longrightarrow>
        restore_from_db E self s = (Inr (), self, record_event GetLastCurrentPeriod s))
   \<and> (last_current_period s = Some lastPeriod \<longrightarrow>
        prefix (computes (journal (snd (snd (restore_from_db E self s)))))
          (computes (journal s) @
           (if lastPeriod \<noteq> current_period self
            then calls_for lastPeriod (kpis self) [''D'', ''W'', ''M''] else []) @
           (if current_day self \<noteq> get_truncated_value E lastPeriod ''D''
            then calls_for lastPeriod (kpis self) [''Y''] else []))
        \<and> (fst (restore_from_db E self s) = Inr () \<longrightarrow>
           computes (journal (snd (snd (restore_from_db E self s)))) =
           computes (journal s) @
           (if lastPeriod \<noteq> current_period self
            then calls_for lastPeriod (kpis self) [''D'', ''W'', ''M''] else []) @
           (if current_day self \<noteq> get_truncated_value E lastPeriod ''D''
            then calls_for lastPeriod (kpis self) [''Y''] else [])))"
  using restore_from_db_self [of E self s] restore_from_db_fresh [of s E self]
    restore_from_db_computes [of s lastPeriod E self]
  by blast

lemma restore_from_db_replays_march:
  "restore_from_db calendar (processor_at 2024 3 16 9) empty_session
     = (Inr (), processor_at 2024 3 16 9, record_event GetLastCurrentPeriod empty_session)
   \<and> last_current_period marked_session = Some (at_hour 2024 3 15 13)
   \<and> fst (restore_from_db calendar (processor_at 2024 3 16 9) marked_session) = Inr ()
   \<and> fst (snd (restore_from_db calendar (processor_at 2024 3 16 9) marked_session))
     = processor_at 2024 3 16 9
   \<and> computes (journal (snd (snd
        (restore_from_db calendar (processor_at 2024 3 16 9) marked_session))))
     = [(at_hour 2024 3 15 13, 1, ''D''), (at_hour 2024 3 15 13, 1, ''W''),
        (at_hour 2024 3 15 13, 1, ''M''), (at_hour 2024 3 15 13, 1, ''Y'')]"
proof -
  have none: "last_current_period empty_session = None" by (simp add: empty_session_def)
  have some: "last_current_period marked_session = Some (at_hour 2024 3 15 13)"
    by (simp add: marked_session_def)
  have ok: "fst (restore_from_db calendar (processor_at 2024 3 16 9) marked_session) = Inr ()"
    by (rule restore_from_db_succeeds [OF some march15_no_errors])
  have cp: "at_hour 2024 3 15 13 \<noteq> current_period (processor_at 2024 3 16 9)"
    by (simp add: processor_at_def Processor_def at_hour_def)
  have cd: "current_day (processor_at 2024 3 16 9)
      \<noteq> get_truncated_value calendar (at_hour 2024 3 15 13) ''D''"
    by (simp add: processor_at_def Processor_def calendar_defs)
  have ks: "kpis (processor_at 2024 3 16 9) = [window_kpi 1]"
    by (simp add: processor_at_def)
  have j: "computes (journal marked_session) = []"
    by (simp add: marked_session_def computes_def)
  show ?thesis
    using none some ok cp cd
      restore_from_db_replays [of calendar "processor_at 2024 3 16 9" empty_session]
      restore_from_db_replays [of calendar "processor_at 2024 3 16 9" marked_session
        "at_hour 2024 3 15 13"]
    by (simp add: ks j calls_for_def window_kpi_def)
qed

lemma restore_from_db_hourly_error:
  assumes "last_current_period s = Some lastPeriod"
    and "lastPeriod \<noteq> current_period self" and "kpis self \<noteq> []"
    and "first_error E lastPeriod [''D'', ''W'', ''M''] = Some e"
  shows "restore_from_db E self s =
     (Inl e, self,
      snd (loop_kpis E lastPeriod (kpis self) [''D'', ''W'', ''M'']
             (record_event GetLastCurrentPeriod s)))"
proof -
  define s0 where "s0 = record_event GetLastCurrentPeriod s"
  obtain r1 s1 where l1: "loop_kpis E lastPeriod (kpis self) [''D'', ''W'', ''M''] s0 = (r1, s1)"
    by (cases "loop_kpis E lastPeriod (kpis self) [''D'', ''W'', ''M''] s0")
  have r1: "r1 = Inl e"
    using loop_kpis_result [of E lastPeriod "kpis self" "[''D'', ''W'', ''M'']" s0] assms(3,4) l1
    by simp
  show ?thesis
    using assms(1,2) l1 r1
    by (simp add: restore_from_db_def get_last_current_period_def Let_def s0_def [symmetric])
qed

section \<open>Properties\<close>




text \<open>
  C2. The monthly window runs from midnight of the first day of the reference month to
  midnight of the first day of the following month. The code computes the end as
  \<open>datetime(year, month + 1, 1)\<close>: for a reference period in January to November
  that is the claimed window (\<open>monthly_window_before_december\<close>, and
  \<open>march15_window_M\<close> for 2024-03-15), but for a reference period in December the
  month is 13 and the constructor raises ValueError; there is no rollover into January.
  The run below is the window resolver at 2023-12-15 14:00.
\<close>

theorem december_monthly_window_raises:
  "get_timestamps calendar ''M'' (at_hour 2023 12 15 14) = Inl ValueError"
  by (rule monthly_window_december) (simp add: calendar_def at_hour_def)

text \<open>
  C3. For every reference period, the retention resolver \<open>get_aggregations_to_keep\<close>
  returns exactly the 7 day labels of the reference shifted back by 0..6 days for D,
  exactly the 4 week labels of the reference shifted back by 0..3 weeks for W, exactly
  the 12 month labels of the reference shifted back by 0..11 months for M, and the
  keep-all value \<open>None\<close> for Y; a yearly recomputation deletes no value: the keys of
  the rows it finds are the first keys of the rows it leaves, in the same order.
\<close>

theorem retention_lists:
  "get_aggregations_to_keep E ''D'' now =
     Inr (Some [shifted_label E now (Days 0) ''D'', shifted_label E now (Days (- 1)) ''D'',
                shifted_label E now (Days (- 2)) ''D'', shifted_label E now (Days (- 3)) ''D'',
                shifted_label E now (Days (- 4)) ''D'', shifted_label E now (Days (- 5)) ''D'',
                shifted_label E now (Days (- 6)) ''D''])
   \<and> get_aggregations_to_keep E ''W'' now =
     Inr (Some [shifted_label E now (Weeks 0) ''W'', shifted_label E now (Weeks (- 1)) ''W'',
                shifted_label E now (Weeks (- 2)) ''W'', shifted_label E now (Weeks (- 3)) ''W''])
   \<and> get_aggregations_to_keep E ''M'' now =
     Inr (Some [shifted_label E now (Months 0) ''M'', shifted_label E now (Months (- 1)) ''M'',
                shifted_label E now (Months (- 2)) ''M'', shifted_label E now (Months (- 3)) ''M'',
                shifted_label E now (Months (- 4)) ''M'', shifted_label E now (Months (- 5)) ''M'',
                shifted_label E now (Months (- 6)) ''M'', shifted_label E now (Months (- 7)) ''M'',
                shifted_label E now (Months (- 8)) ''M'', shifted_label E now (Months (- 9)) ''M'',
                shifted_label E now (Months (- 10)) ''M'',
                shifted_label E now (Months (- 11)) ''M''])
   \<and> get_aggregations_to_keep E ''Y'' now = Inr None
   \<and> prefix (map row_key (kpi_values s))
       (map row_key
          (kpi_values (snd (compute_kpi_values_for_aggregation_kind E now kpi ''Y'' s))))"
  by (simp add: keep_D keep_W keep_M keep_Y upt_7 upt_4 upt_12 shifted_label_def
      yearly_rows_prefix)

theorem retention_lists_witness:
  "get_aggregations_to_keep calendar ''D'' (at_hour 2024 3 3 14) =
     Inr (Some [''2024-03-03'', ''2024-03-02'', ''2024-03-01'', ''2024-02-29'',
                ''2024-02-28'', ''2024-02-27'', ''2024-02-26''])
   \<and> get_aggregations_to_keep calendar ''Y'' (at_hour 2024 3 3 14) = Inr None"
  using retention_lists [of calendar "at_hour 2024 3 3 14" empty_session "window_kpi 1"]
  by (simp add: shifted_label_def calendar_defs Let_def)




text \<open>
  C5. \<open>restore_from_db\<close> does nothing when there is no persisted marker
  (\<open>restore_from_db_fresh\<close>) and never changes the processor
  (\<open>restore_from_db_self\<close>). With a marker it should recompute D, W and M for
  every tracked KPI with the persisted period as reference when that period differs
  from \<open>current_period\<close>, and then Y for every KPI when its day label differs
  from \<open>current_day\<close>; it does so whenever no recomputation raises
  (\<open>restore_from_db_replays\<close>). With a marker in December the monthly
  recomputation of the first KPI raises ValueError (the defect of C2): in the run
  below, with the marker at 2023-12-31 23:00 and two KPIs on a processor of 2024-01-02,
  the call raises after entering D, W and M for the first KPI; the second KPI is not
  recomputed and no yearly recomputation runs, although the day labels differ.
\<close>

theorem restore_with_december_marker_raises:
  "fst (restore_from_db calendar (two_kpi_processor_at 2024 1 2 9) december_marked_session)
     = Inl ValueError
   \<and> computes (journal (snd (snd
        (restore_from_db calendar (two_kpi_processor_at 2024 1 2 9) december_marked_session))))
     = [(at_hour 2023 12 31 23, 1, ''D''), (at_hour 2023 12 31 23, 1, ''W''),
        (at_hour 2023 12 31 23, 1, ''M'')]
   \<and> kpis (two_kpi_processor_at 2024 1 2 9) = [window_kpi 1, window_kpi 2]
   \<and> current_day (two_kpi_processor_at 2024 1 2 9)
       \<noteq> get_truncated_value calendar (at_hour 2023 12 31 23) ''D''"
proof -
  have m: "last_current_period december_marked_session = Some (at_hour 2023 12 31 23)"
    by (simp add: december_marked_session_def)
  have cp: "at_hour 2023 12 31 23 \<noteq> current_period (two_kpi_processor_at 2024 1 2 9)"
    by (simp add: two_kpi_processor_at_def Processor_def at_hour_def)
  have ks: "kpis (two_kpi_processor_at 2024 1 2 9) = [window_kpi 1, window_kpi 2]"
    by (simp add: two_kpi_processor_at_def)
  have ks': "kpis (two_kpi_processor_at 2024 1 2 9) \<noteq> []" by (simp add: ks)
  have cd: "current_day (two_kpi_processor_at 2024 1 2 9)
       \<noteq> get_truncated_value calendar (at_hour 2023 12 31 23) ''D''"
    by (simp add: two_kpi_processor_at_def Processor_def calendar_defs)
  have j: "computes (journal (snd (loop_kpis calendar (at_hour 2023 12 31 23)
        [window_kpi 1, window_kpi 2] [''D'', ''W'', ''M'']
        (record_event GetLastCurrentPeriod december_marked_session))))
      = [(at_hour 2023 12 31 23, 1, ''D''), (at_hour 2023 12 31 23, 1, ''W''),
         (at_hour 2023 12 31 23, 1, ''M'')]"
  proof -
    have "computes (journal december_marked_session) = []"
      by (simp add: december_marked_session_def computes_def)
    then show ?thesis
      unfolding loop_kpis_computes dec31_first_error dec31_attempted
      by (simp add: calls_for_def window_kpi_def)
  qed
  show ?thesis
    unfolding restore_from_db_hourly_error [OF m cp ks' dec31_first_error] ks
    using cd by (simp add: j del: loop_kpis.simps)
qed

text \<open>
  C6. A tick whose period equals the stored \<open>current_period\<close> returns False (no
  update), leaves the processor as it was and leaves the session as it was: no row is
  touched and the journal gains no event, so the persister is neither read nor written.
\<close>

theorem same_period_is_noop:
  "process_tick E self (current_period self) s = (Inr False, self, s)"
  by (simp add: process_tick_def)

theorem same_period_is_noop_witness:
  "process_tick calendar
     ((Processor calendar (at_hour 2024 3 15 14))\<lparr>kpis := [window_kpi 1]\<rparr>)
     (at_hour 2024 3 15 14) empty_session
   = (Inr False,
      (Processor calendar (at_hour 2024 3 15 14))\<lparr>kpis := [window_kpi 1]\<rparr>,
      empty_session)"
  using same_period_is_noop
    [of calendar "(Processor calendar (at_hour 2024 3 15 14))\<lparr>kpis := [window_kpi 1]\<rparr>"
        empty_session]
  by (simp add: Processor_def)

text \<open>
  C7. Idempotence: for every KPI, granularity and reference period (shifting the
  period by a zero offset giving the period itself), a second recomputation right
  after the first, with the KPI computing the same value for the same arguments,
  ends as the first did, leaves the table exactly as the first call left it (same
  rows, same values, no duplicate) and creates no value.
\<close>

theorem recompute_is_idempotent:
  assumes "zero_shift_is_identity E now"
  shows "fst (compute_kpi_values_for_aggregation_kind E now kpi agg_kind
                (snd (compute_kpi_values_for_aggregation_kind E now kpi agg_kind s)))
         = fst (compute_kpi_values_for_aggregation_kind E now kpi agg_kind s)
       \<and> kpi_values (snd (compute_kpi_values_for_aggregation_kind E now kpi agg_kind
                (snd (compute_kpi_values_for_aggregation_kind E now kpi agg_kind s))))
         = kpi_values (snd (compute_kpi_values_for_aggregation_kind E now kpi agg_kind s))
       \<and> adds (journal (snd (compute_kpi_values_for_aggregation_kind E now kpi agg_kind
                (snd (compute_kpi_values_for_aggregation_kind E now kpi agg_kind s)))))
         = adds (journal (snd (compute_kpi_values_for_aggregation_kind E now kpi agg_kind s)))"
proof -
  define s1 where "s1 = snd (compute_kpi_values_for_aggregation_kind E now kpi agg_kind s)"
  have res: "fst (compute_kpi_values_for_aggregation_kind E now kpi agg_kind s1)
      = fst (compute_kpi_values_for_aggregation_kind E now kpi agg_kind s)"
    by (simp add: compute_result)
  have "kpi_values (snd (compute_kpi_values_for_aggregation_kind E now kpi agg_kind s1))
          = kpi_values s1
      \<and> adds (journal (snd (compute_kpi_values_for_aggregation_kind E now kpi agg_kind s1)))
          = adds (journal s1)"
  proof (cases "window_error E now agg_kind")
    case (Some e)
    then show ?thesis by (simp add: compute_rows_error compute_adds)
  next
    case None
    then obtain keep ts where ok: "get_aggregations_to_keep E agg_kind now = Inr keep"
        "get_timestamps E agg_kind now = Inr ts"
      by (auto simp: window_error_def split: sum.splits)
    have np: "\<not> is_pruned keep (get_truncated_value E now agg_kind)"
      by (rule not_pruned_current [OF assms ok(1)])
    have labels1: "labels_of (unique_id kpi) agg_kind s1 =
        filter (\<lambda>l. \<not> is_pruned keep l) (labels_of (unique_id kpi) agg_kind s)
        @ (if get_truncated_value E now agg_kind \<in> set (labels_of (unique_id kpi) agg_kind s)
           then [] else [get_truncated_value E now agg_kind])"
      unfolding s1_def by (rule compute_labels_ok [OF ok])
    have cur_in: "get_truncated_value E now agg_kind \<in> set (labels_of (unique_id kpi) agg_kind s1)"
      using np by (simp add: labels1)
    have kept: "\<forall>l\<in>set (labels_of (unique_id kpi) agg_kind s1). \<not> is_pruned keep l"
      using np by (simp add: labels1)
    have rows1: "kpi_values s1 =
        map (refreshed (unique_id kpi) agg_kind (get_truncated_value E now agg_kind)
               (set (labels_of (unique_id kpi) agg_kind s))
               (get_value kpi agg_kind (start ts) (stop ts)))
          (filter (survives (unique_id kpi) agg_kind keep
                     (set (labels_of (unique_id kpi) agg_kind s))) (kpi_values s))
        @ (if get_truncated_value E now agg_kind \<in> set (labels_of (unique_id kpi) agg_kind s)
           then []
           else [\<lparr>row_kpi_id = unique_id kpi, row_agg_kind = agg_kind,
                  row_agg_value = get_truncated_value E now agg_kind,
                  row_kpi_value = get_value kpi agg_kind (start ts) (stop ts)\<rparr>])"
      unfolding s1_def by (rule compute_rows_ok [OF ok])
    have seen0: "\<forall>r\<in>set (kpi_values s). has_key (unique_id kpi) agg_kind r \<longrightarrow>
        row_agg_value r \<in> set (labels_of (unique_id kpi) agg_kind s)"
      by (simp add: labels_of_def)
    have fresh: "\<forall>r\<in>set (kpi_values s1).
        has_key (unique_id kpi) agg_kind r
          \<and> row_agg_value r = get_truncated_value E now agg_kind
        \<longrightarrow> row_kpi_value r = get_value kpi agg_kind (start ts) (stop ts)"
    proof (intro ballI impI)
      fix r
      assume r: "r \<in> set (kpi_values s1)"
        and k: "has_key (unique_id kpi) agg_kind r
                \<and> row_agg_value r = get_truncated_value E now agg_kind"
      from r consider
        "r \<in> set (map (refreshed (unique_id kpi) agg_kind (get_truncated_value E now agg_kind)
               (set (labels_of (unique_id kpi) agg_kind s))
               (get_value kpi agg_kind (start ts) (stop ts)))
          (filter (survives (unique_id kpi) agg_kind keep
                     (set (labels_of (unique_id kpi) agg_kind s))) (kpi_values s)))"
        | "r = \<lparr>row_kpi_id = unique_id kpi, row_agg_kind = agg_kind,
                  row_agg_value = get_truncated_value E now agg_kind,
                  row_kpi_value = get_value kpi agg_kind (start ts) (stop ts)\<rparr>"
        unfolding rows1 set_append by (cases "get_truncated_value E now agg_kind
            \<in> set (labels_of (unique_id kpi) agg_kind s)") auto
      then show "row_kpi_value r = get_value kpi agg_kind (start ts) (stop ts)"
      proof cases
        case 1
        show ?thesis
          by (rule refreshed_rows_current [OF seen0 1]) (use k in simp_all)
      next
        case 2
        then show ?thesis by simp
      qed
    qed
    have "kpi_values (snd (compute_kpi_values_for_aggregation_kind E now kpi agg_kind s1))
        = kpi_values s1"
      by (rule compute_settled [OF ok cur_in kept fresh])
    moreover have
      "adds (journal (snd (compute_kpi_values_for_aggregation_kind E now kpi agg_kind s1)))
        = adds (journal s1)"
      using cur_in by (simp add: compute_adds)
    ultimately show ?thesis by simp
  qed
  then show ?thesis using res by (simp add: s1_def)
qed

theorem recompute_is_idempotent_witness:
  "zero_shift_is_identity calendar (at_hour 2024 3 15 14)
   \<and> kpi_values
       (snd (compute_kpi_values_for_aggregation_kind calendar (at_hour 2024 3 15 14)
               (window_kpi 1) ''D''
               (snd (compute_kpi_values_for_aggregation_kind calendar (at_hour 2024 3 15 14)
                       (window_kpi 1) ''D'' empty_session))))
     = [\<lparr>row_kpi_id = 1, row_agg_kind = ''D'', row_agg_value = ''2024-03-15'',
         row_kpi_value = 86400\<rparr>]"
proof -
  have z: "zero_shift_is_identity calendar (at_hour 2024 3 15 14)"
    by (simp add: zero_shift_is_identity_def calendar_defs Let_def)
  have first: "kpi_values
       (snd (compute_kpi_values_for_aggregation_kind calendar (at_hour 2024 3 15 14)
               (window_kpi 1) ''D'' empty_session))
     = [\<lparr>row_kpi_id = 1, row_agg_kind = ''D'', row_agg_value = ''2024-03-15'',
         row_kpi_value = 86400\<rparr>]"
    using compute_rows_ok [OF march15_keep_D march15_window_D, of "window_kpi 1" empty_session]
    by (simp add: march15_day_label window_kpi_def labels_of_def empty_session_def)
  show ?thesis
    using z first
      recompute_is_idempotent [OF z, of "window_kpi 1" "''D''" empty_session]
    by simp
qed

text \<open>
  C8. For a granularity other than D, W, M and Y, the window resolver
  \<open>get_timestamps\<close> and the retention resolver \<open>get_aggregations_to_keep\<close> both
  raise (AttributeError, the error the spec calls InvalidGranularity); neither
  returns a value.
\<close>

theorem unsupported_granularity_raises:
  assumes "agg_kind \<noteq> ''D''" and "agg_kind \<noteq> ''W''"
    and "agg_kind \<noteq> ''M''" and "agg_kind \<noteq> ''Y''"
  shows "get_timestamps E agg_kind now = Inl AttributeError
       \<and> get_aggregations_to_keep E agg_kind now = Inl AttributeError"
  using assms by (simp add: get_timestamps_def get_aggregations_to_keep_def)

theorem unsupported_granularity_raises_witness:
  "get_timestamps calendar ''H'' (at_hour 2024 3 15 14) = Inl AttributeError
   \<and> get_aggregations_to_keep calendar ''H'' (at_hour 2024 3 15 14) = Inl AttributeError"
  using unsupported_granularity_raises [of "''H''" calendar "at_hour 2024 3 15 14"] by simp

text \<open>
  C9, as amended. A tick stores its period as \<open>current_period\<close> whatever the
  stored period was (the two are compared for equality only, and the assignment comes
  before anything can raise), so after every \<open>process_tick\<close> call \<open>current_period\<close>
  is the period of that call: it is non-decreasing over a run exactly when the periods
  handed in are. \<open>restore_from_db\<close> never changes \<open>current_period\<close>.
\<close>

theorem tick_sets_current_period:
  "current_period (fst (snd (process_tick E self now s))) = now
   \<and> current_period (fst (snd (restore_from_db E self s))) = current_period self"
  by (simp add: process_tick_period restore_from_db_def get_last_current_period_def Let_def
      split: option.splits prod.splits sum.splits)

theorem tick_sets_current_period_witness:
  "current_period (fst (snd
      (process_tick calendar (processor_at 2024 3 15 14) (at_hour 2024 3 15 15) marked_session)))
     = at_hour 2024 3 15 15
   \<and> current_period (fst (snd (restore_from_db calendar (processor_at 2024 3 15 14) marked_session)))
     = at_hour 2024 3 15 14"
  using tick_sets_current_period
    [of calendar "processor_at 2024 3 15 14" "at_hour 2024 3 15 15" marked_session]
  by (simp add: processor_at_def Processor_def)

text \<open>
  C9 as stated fails: a tick for 13:00 on a processor at 14:00 of the same day rewinds
  \<open>current_period\<close> to the earlier hour.
\<close>

theorem earlier_tick_rewinds_current_period:
  "earlier
     (current_period (fst (snd
        (process_tick calendar (processor_at 2024 3 15 14) (at_hour 2024 3 15 13) empty_session))))
     (current_period (processor_at 2024 3 15 14))"
  by (simp add: process_tick_period processor_at_def Processor_def earlier_def hp_hours_def
      hp_ordinal_def at_hour_def)

text \<open>
  C10. The yearly recomputation of a tick uses the period before the advance as its
  reference, so the tick that crosses a year boundary should recompute the bucket of
  the closing year. With hourly ticks that tick finds \<open>current_period\<close> in December:
  the monthly recomputation of the first KPI raises ValueError (the defect of C2)
  before the yearly block is reached. In the run below, from 2023-12-31 23:00 to
  2024-01-01 00:00 with one KPI, the tick raises after entering D, W and M, no yearly
  recomputation runs, \<open>current_period\<close> is already advanced and \<open>current_day\<close> is
  still the old day.
\<close>

theorem year_crossing_tick_raises:
  "fst (process_tick calendar (processor_at 2023 12 31 23) (at_hour 2024 1 1 0) empty_session)
     = Inl ValueError
   \<and> computes (journal (snd (snd
        (process_tick calendar (processor_at 2023 12 31 23) (at_hour 2024 1 1 0) empty_session))))
     = [(at_hour 2023 12 31 23, 1, ''D''), (at_hour 2023 12 31 23, 1, ''W''),
        (at_hour 2023 12 31 23, 1, ''M'')]
   \<and> current_period (fst (snd
        (process_tick calendar (processor_at 2023 12 31 23) (at_hour 2024 1 1 0) empty_session)))
     = at_hour 2024 1 1 0
   \<and> current_day (fst (snd
        (process_tick calendar (processor_at 2023 12 31 23) (at_hour 2024 1 1 0) empty_session)))
     = ''2023-12-31''"
proof -
  have cp: "current_period (processor_at 2023 12 31 23) = at_hour 2023 12 31 23"
    and ks: "kpis (processor_at 2023 12 31 23) = [window_kpi 1]"
    and cd: "current_day (processor_at 2023 12 31 23) = ''2023-12-31''"
    by (simp_all add: processor_at_def Processor_def calendar_defs)
  have ne: "current_period (processor_at 2023 12 31 23) \<noteq> at_hour 2024 1 1 0"
    by (simp add: cp at_hour_def)
  have ks': "kpis (processor_at 2023 12 31 23) \<noteq> []" by (simp add: ks)
  have fe: "first_error calendar (current_period (processor_at 2023 12 31 23))
      [''D'', ''W'', ''M''] = Some ValueError"
    unfolding cp by (rule dec31_first_error)
  have j: "computes (journal (snd (loop_kpis calendar (at_hour 2023 12 31 23) [window_kpi 1]
        [''D'', ''W'', ''M''] empty_session)))
      = [(at_hour 2023 12 31 23, 1, ''D''), (at_hour 2023 12 31 23, 1, ''W''),
         (at_hour 2023 12 31 23, 1, ''M'')]"
    unfolding loop_kpis_computes dec31_first_error dec31_attempted
    by (simp add: calls_for_def window_kpi_def empty_session_def computes_def)
  show ?thesis
    unfolding process_tick_hourly_error [OF ne ks' fe] cp ks
    by (simp add: j cd del: loop_kpis.simps)
qed

end
